theory Spec2Isabelle
  imports Main
begin

section \<open>The browser's timer table\<close>

text \<open>
  The web UI runs on a single-threaded event loop. The only platform services the two
  schedulers of \<^verbatim>\<open>index.tsx\<close> use are \<^verbatim>\<open>setTimeout\<close> and \<^verbatim>\<open>clearTimeout\<close>.
  The timer table holds the armed timers of one scheduler instance as pairs of a timer id
  and the delay (in ms) it was armed with; every timer of an instance has the same
  callback, \<^verbatim>\<open>executeCallback\<close>, so the callback is not stored.
\<close>

record browser =
  timers :: "(nat \<times> nat) list"
  next_id :: nat

definition setTimeout :: "nat \<Rightarrow> 'a browser_scheme \<Rightarrow> nat \<times> 'a browser_scheme" where
  "setTimeout delay b =
     (next_id b, b\<lparr>timers := timers b @ [(next_id b, delay)], next_id := Suc (next_id b)\<rparr>)"

definition clearTimeout :: "nat option \<Rightarrow> 'a browser_scheme \<Rightarrow> 'a browser_scheme" where
  "clearTimeout t b =
     (case t of
        None \<Rightarrow> b
      | Some i \<Rightarrow> b\<lparr>timers := filter (\<lambda>(j, d). j \<noteq> i) (timers b)\<rparr>)"

text \<open>
  The variables captured by the closures of a scheduler instance, with two counters:
  the number of invocations of the unit of work whose promise has not settled yet, and the
  number of invocations started so far.
\<close>

record sched = browser +
  timeoutId :: "nat option"
  in_flight :: nat
  invocations :: nat

text \<open>What the event loop can do to a scheduler instance: an armed timer fires, the
  promise of an invocation in flight settles with a result of type \<open>'r\<close>, or the owner
  calls the function the scheduler returned.\<close>

datatype 'r event = TimerFires nat | Settles 'r | Cancel

definition armed :: "nat \<Rightarrow> 'a browser_scheme \<Rightarrow> bool" where
  "armed t b = (t \<in> fst ` set (timers b))"

definition expire :: "nat \<Rightarrow> 'a browser_scheme \<Rightarrow> 'a browser_scheme" where
  "expire t b = b\<lparr>timers := filter (\<lambda>(j, d). j \<noteq> t) (timers b)\<rparr>"

definition invoke :: "'a sched_scheme \<Rightarrow> 'a sched_scheme" where
  "invoke s = s\<lparr>in_flight := Suc (in_flight s), invocations := Suc (invocations s)\<rparr>"

definition settled :: "'a sched_scheme \<Rightarrow> 'a sched_scheme" where
  "settled s = s\<lparr>in_flight := in_flight s - 1\<rparr>"

section \<open>customSetInterval\<close>

text \<open>
  \<^verbatim>\<open>currentInterval\<close> is \<open>None\<close> when the unit of work resolved with \<^verbatim>\<open>null\<close> or
  \<^verbatim>\<open>undefined\<close>. \<^verbatim>\<open>setTimeout\<close> reads a missing delay as 0.
\<close>

record csi = sched +
  currentInterval :: "nat option"

datatype settle = Resolves "nat option" | Rejects

definition scheduleNext :: "csi \<Rightarrow> csi" where
  "scheduleNext s =
     (let (t, s') = setTimeout (case currentInterval s of None \<Rightarrow> 0 | Some d \<Rightarrow> d) s
      in s'\<lparr>timeoutId := Some t\<rparr>)"

text \<open>\<^verbatim>\<open>executeCallback\<close> up to its \<^verbatim>\<open>await\<close>, and from the \<^verbatim>\<open>await\<close> on.\<close>

definition executeCallback_begin :: "csi \<Rightarrow> csi" where
  "executeCallback_begin s = invoke s"

definition executeCallback_resume :: "settle \<Rightarrow> csi \<Rightarrow> csi" where
  "executeCallback_resume r s =
     (case r of
        Rejects \<Rightarrow> settled s
      | Resolves v \<Rightarrow>
          (let s1 = (settled s)\<lparr>currentInterval := v\<rparr>
           in if v = None then s1 else scheduleNext s1))"

definition clearCustomInterval :: "'a sched_scheme \<Rightarrow> 'a sched_scheme" where
  "clearCustomInterval s = clearTimeout (timeoutId s) s"

definition customSetInterval :: "nat \<Rightarrow> csi" where
  "customSetInterval interval =
     scheduleNext \<lparr>timers = [], next_id = 1, timeoutId = None, in_flight = 0,
       invocations = 0, currentInterval = Some interval\<rparr>"

fun csi_step :: "csi \<Rightarrow> settle event \<Rightarrow> csi" where
  "csi_step s (TimerFires t) = (if armed t s then executeCallback_begin (expire t s) else s)"
| "csi_step s (Settles r) = (if in_flight s = 0 then s else executeCallback_resume r s)"
| "csi_step s Cancel = clearCustomInterval s"

definition csi_run :: "nat \<Rightarrow> settle event list \<Rightarrow> csi" where
  "csi_run interval evs = foldl csi_step (customSetInterval interval) evs"

section \<open>loopUntilSuccess\<close>

text \<open>
  A JavaScript value is \<^verbatim>\<open>undefined\<close> (\<open>None\<close>) or a JSON-like value. An object is
  the list of its own properties, each key once; numbers are whole numbers here. The truth
  test of \<^verbatim>\<open>if (retry)\<close> is \<open>truthy\<close>.
\<close>

datatype json = JNull | JBool bool | JNum int | JStr string | JArr "json list"
  | JObj "(string \<times> json) list"

fun truthy :: "json option \<Rightarrow> bool" where
  "truthy None = False"
| "truthy (Some JNull) = False"
| "truthy (Some (JBool b)) = b"
| "truthy (Some (JNum n)) = (n \<noteq> 0)"
| "truthy (Some (JStr s)) = (s \<noteq> [])"
| "truthy (Some (JArr xs)) = True"
| "truthy (Some (JObj kvs)) = True"

datatype outcome = Success | Failure

text \<open>
  The two handlers given to \<^verbatim>\<open>then\<close> are \<^verbatim>\<open>() => { false }\<close> and \<^verbatim>\<open>() => { true }\<close>:
  arrow functions with a block body and no \<^verbatim>\<open>return\<close>, so each returns \<^verbatim>\<open>undefined\<close>.
\<close>

definition onFulfilled :: "json option" where
  "onFulfilled = None"

definition onRejected :: "json option" where
  "onRejected = None"

definition lus_scheduleNext :: "nat \<Rightarrow> nat option \<Rightarrow> sched \<Rightarrow> sched" where
  "lus_scheduleNext interval i s =
     (let (t, s') = setTimeout (case i of Some d \<Rightarrow> d | None \<Rightarrow> interval) s
      in s'\<lparr>timeoutId := Some t\<rparr>)"

definition lus_executeCallback_begin :: "sched \<Rightarrow> sched" where
  "lus_executeCallback_begin s = invoke s"

definition lus_executeCallback_resume :: "nat \<Rightarrow> outcome \<Rightarrow> sched \<Rightarrow> sched" where
  "lus_executeCallback_resume interval r s =
     (let retry = (case r of Success \<Rightarrow> onFulfilled | Failure \<Rightarrow> onRejected)
      in if truthy retry then lus_scheduleNext interval None (settled s) else settled s)"

definition loopUntilSuccess :: "nat \<Rightarrow> sched" where
  "loopUntilSuccess interval =
     lus_scheduleNext interval (Some 0)
       \<lparr>timers = [], next_id = 1, timeoutId = None, in_flight = 0, invocations = 0\<rparr>"

fun lus_step :: "nat \<Rightarrow> sched \<Rightarrow> outcome event \<Rightarrow> sched" where
  "lus_step interval s (TimerFires t) =
     (if armed t s then lus_executeCallback_begin (expire t s) else s)"
| "lus_step interval s (Settles r) =
     (if in_flight s = 0 then s else lus_executeCallback_resume interval r s)"
| "lus_step interval s Cancel = clearCustomInterval s"

definition lus_run :: "nat \<Rightarrow> outcome event list \<Rightarrow> sched" where
  "lus_run interval evs = foldl (lus_step interval) (loopUntilSuccess interval) evs"

section \<open>makeRequest\<close>

text \<open>
  \<^verbatim>\<open>ErrorType\<close>: an optional field is \<open>None\<close> when absent. \<^verbatim>\<open>error.text\<close> is assigned
  \<^verbatim>\<open>json.human_readable\<close>, a value of type \<^verbatim>\<open>any\<close>, so the field holds a JSON value; a
  string is \<open>JStr\<close>. The fields carry the prefix \<open>e_\<close>.
\<close>

record ErrorType =
  e_id :: "int option"
  e_method :: "string option"
  e_path :: "string option"
  e_status :: "nat option"
  e_statusText :: "string option"
  e_text :: json

datatype js_error = SyntaxError | TypeError | DOMException

text \<open>What a rejected promise of \<^verbatim>\<open>makeRequest\<close> carries: the error record the function
  built, or an exception that passed through it.\<close>

datatype rejection = ErrorRecord ErrorType | Thrown js_error

text \<open>
  The request leaves the program through \<^verbatim>\<open>fetch\<close>; what comes back is the input of the
  model. \<^verbatim>\<open>fetch\<close> throws, or returns a response, of which the function reads
  \<^verbatim>\<open>status\<close>, \<^verbatim>\<open>statusText\<close>, \<^verbatim>\<open>ok\<close>, and the outcome of one of
  \<^verbatim>\<open>await response.text()\<close> and \<^verbatim>\<open>await response.json()\<close>. \<open>resp_parse\<close> is what
  \<^verbatim>\<open>JSON.parse\<close> makes of the text of the body: a \<^verbatim>\<open>SyntaxError\<close>, or a value, held
  together with the text \<^verbatim>\<open>JSON.stringify(json, null, 2)\<close> prints it as.
  \<open>'a\<close> is the type the caller reads the parsed body at.
\<close>

record parsed_body =
  pb_value :: json
  pb_pretty :: string

record 'a response =
  resp_status :: nat
  resp_statusText :: string
  resp_ok :: bool
  resp_text :: "js_error + string"
  resp_parse :: "js_error + parsed_body"
  resp_json :: "js_error + 'a"

datatype 'a fetch_outcome = FetchThrows | FetchReturns "'a response"

record TorrentId =
  t_id :: nat
  t_info_hash :: string

text \<open>The state of the \<^verbatim>\<open>Root\<close> component. In the two error slots \<^verbatim>\<open>null\<close> is
  \<open>None\<close>. \<^verbatim>\<open>torrents\<close> holds whatever \<^verbatim>\<open>setTorrents\<close> was given, a JavaScript value:
  \<^verbatim>\<open>undefined\<close> is \<open>None\<close>, \<^verbatim>\<open>null\<close> is \<open>Some JNull\<close>, a list of task ids is a
  \<open>JArr\<close>.\<close>

record root_state =
  closeableError :: "ErrorType option"
  otherError :: "rejection option"
  torrents :: "json option"
  torrentsLoading :: bool

definition maybeShowError :: "bool \<Rightarrow> ErrorType \<Rightarrow> root_state \<Rightarrow> root_state" where
  "maybeShowError showError e st = (if showError then st\<lparr>closeableError := Some e\<rparr> else st)"

text \<open>\<^verbatim>\<open>json.human_readable\<close>: reading a property of \<^verbatim>\<open>null\<close> throws; a value that is
  not an object has no such property; an object has it when it is among its own keys.\<close>

fun get_property :: "json \<Rightarrow> string \<Rightarrow> js_error + json option" where
  "get_property JNull k = Inl TypeError"
| "get_property (JObj kvs) k = Inr (map_of kvs k)"
| "get_property v k = Inr None"

text \<open>The \<^verbatim>\<open>try\<close>/\<^verbatim>\<open>catch\<close> that chooses \<^verbatim>\<open>error.text\<close>.\<close>

definition error_text :: "js_error + parsed_body \<Rightarrow> string \<Rightarrow> json" where
  "error_text parsed errorBody =
     (case parsed of
        Inl ex \<Rightarrow> JStr errorBody
      | Inr json \<Rightarrow>
          (case get_property (pb_value json) ''human_readable'' of
             Inl ex \<Rightarrow> JStr errorBody
           | Inr (Some human_readable) \<Rightarrow> human_readable
           | Inr None \<Rightarrow> JStr (pb_pretty json)))"

definition makeRequest ::
  "string \<Rightarrow> string \<Rightarrow> bool \<Rightarrow> 'a fetch_outcome \<Rightarrow> root_state
     \<Rightarrow> (rejection + 'a) \<times> root_state" where
  "makeRequest method path showError fetched st =
     (let error = \<lparr>e_id = None, e_method = Some method, e_path = Some path, e_status = None,
            e_statusText = None, e_text = JStr []\<rparr>
      in case fetched of
           FetchThrows \<Rightarrow>
             (let error = error\<lparr>e_text := JStr ''network error''\<rparr>
              in (Inl (ErrorRecord error), maybeShowError showError error st))
         | FetchReturns response \<Rightarrow>
             (let error = error\<lparr>e_status := Some (resp_status response),
                    e_statusText := Some (resp_statusText response)\<rparr>
              in if \<not> resp_ok response then
                   (case resp_text response of
                      Inl ex \<Rightarrow> (Inl (Thrown ex), st)
                    | Inr errorBody \<Rightarrow>
                        (let error = error\<lparr>e_text :=
                               error_text (resp_parse response) errorBody\<rparr>
                         in (Inl (ErrorRecord error), maybeShowError showError error st)))
                 else
                   (case resp_json response of
                      Inl ex \<Rightarrow> (Inl (Thrown ex), st)
                    | Inr result \<Rightarrow> (Inr result, st))))"

section \<open>The registry poller of Root\<close>


text \<open>The unit of work \<^verbatim>\<open>Root\<close> gives to \<^verbatim>\<open>customSetInterval\<close>: it returns the next
  interval and the new state.\<close>

definition Root_interval :: nat where
  "Root_interval = 500"


definition Root_scheduler :: csi where
  "Root_scheduler = customSetInterval Root_interval"

section \<open>The stats poller of Torrent\<close>

text \<open>The counters of a stats snapshot are whole numbers of bytes, pieces and ms; on them
  \<^verbatim>\<open>==\<close> is equality. The fields of \<^verbatim>\<open>TorrentStats\<close> other than \<^verbatim>\<open>snapshot\<close> are never
  read by the code modelled here and stay in the extension slot of the record.\<close>

record PeerStats =
  queued :: nat
  connecting :: nat
  live :: nat
  seen :: nat
  dead :: nat
  not_needed :: nat

record Snapshot =
  have_bytes :: int
  downloaded_and_checked_bytes :: int
  downloaded_and_checked_pieces :: int
  fetched_bytes :: int
  uploaded_bytes :: int
  initially_needed_bytes :: int
  remaining_bytes :: int
  total_bytes :: int
  total_piece_download_ms :: int
  peer_stats :: PeerStats

record TorrentStats =
  snapshot :: Snapshot

definition torrentIsDone :: "'a TorrentStats_scheme \<Rightarrow> bool" where
  "torrentIsDone stats = (have_bytes (snapshot stats) = total_bytes (snapshot stats))"

text \<open>\<^verbatim>\<open>update\<close>, given how the promise of \<^verbatim>\<open>getTorrentStats\<close> settled and the stored
  \<^verbatim>\<open>statsResponse\<close>: it returns the next interval and the stored stats.\<close>

definition update ::
  "rejection + 'a TorrentStats_scheme \<Rightarrow> 'a TorrentStats_scheme
     \<Rightarrow> nat \<times> 'a TorrentStats_scheme" where
  "update settled_with statsResponse =
     (let errorInterval = 10000; liveInterval = 500; finishedInterval = 5000
      in case settled_with of
           Inr stats \<Rightarrow> (if torrentIsDone stats then finishedInterval else liveInterval, stats)
         | Inl e \<Rightarrow> (errorInterval, statsResponse))"

definition Torrent_scheduler :: csi where
  "Torrent_scheduler = customSetInterval 0"

text \<open>Decimal digits of a number, as a template literal and \<^verbatim>\<open>join\<close> print it.\<close>

fun string_of_nat :: "nat \<Rightarrow> string" where
  "string_of_nat n =
     (if n < 10 then [''0123456789'' ! n]
      else string_of_nat (n div 10) @ [''0123456789'' ! (n mod 10)])"

definition getTorrentStats ::
  "nat \<Rightarrow> 'a fetch_outcome \<Rightarrow> root_state \<Rightarrow> (rejection + 'a) \<times> root_state" where
  "getTorrentStats index fetched st =
     makeRequest ''GET'' (''/torrents/'' @ string_of_nat index @ ''/stats'') False
       fetched st"

definition Torrent_update ::
  "TorrentId \<Rightarrow> 'a TorrentStats_scheme fetch_outcome
     \<Rightarrow> root_state \<times> 'a TorrentStats_scheme \<Rightarrow> nat \<times> root_state \<times> 'a TorrentStats_scheme" where
  "Torrent_update torrent fetched st =
     (let (r, root') = getTorrentStats (t_id torrent) fetched (fst st);
          (next_interval, stats') = update r (snd st)
      in (next_interval, root', stats'))"

section \<open>FileSelectionModal\<close>

record TorrentFile =
  f_name :: string
  f_length :: nat
  f_included :: bool

text \<open>The effect that runs when \<^verbatim>\<open>fileList\<close> changes:
  \<^verbatim>\<open>(fileList || []).map((_, id) => id)\<close>.\<close>

definition reset_selection :: "TorrentFile list option \<Rightarrow> nat list" where
  "reset_selection fileList =
     map fst (enumerate 0 (case fileList of None \<Rightarrow> [] | Some fl \<Rightarrow> fl))"

definition handleToggleFile :: "nat list \<Rightarrow> nat \<Rightarrow> nat list" where
  "handleToggleFile selectedFiles fileIndex =
     (if fileIndex \<in> set selectedFiles
      then filter (\<lambda>index. index \<noteq> fileIndex) selectedFiles
      else selectedFiles @ [fileIndex])"

fun join :: "string \<Rightarrow> string list \<Rightarrow> string" where
  "join sep [] = []"
| "join sep [x] = x"
| "join sep (x # y # ys) = x @ sep @ join sep (y # ys)"

definition getSelectedFilesQueryParam :: "TorrentFile list \<Rightarrow> nat list \<Rightarrow> string" where
  "getSelectedFilesQueryParam fileList selectedFiles =
     (let allPresent =
            foldl (\<lambda>allPresent (id', _). allPresent \<and> id' \<in> set selectedFiles) True
              (enumerate 0 fileList)
      in if allPresent then []
         else ''&only_files='' @ join '','' (map string_of_nat selectedFiles))"

definition handleUpload_url :: "TorrentFile list \<Rightarrow> nat list \<Rightarrow> string" where
  "handleUpload_url fileList selectedFiles =
     ''/torrents?overwrite=true'' @ getSelectedFilesQueryParam fileList selectedFiles"

text \<open>The OK button: its \<^verbatim>\<open>disabled\<close> attribute, and what a click on it submits (the
  URL of the POST), nothing when it is disabled.\<close>

definition OK_disabled :: "bool \<Rightarrow> bool \<Rightarrow> nat list \<Rightarrow> bool" where
  "OK_disabled fileListLoading uploading selectedFiles =
     (fileListLoading \<or> uploading \<or> length selectedFiles = 0)"

definition OK_click :: "bool \<Rightarrow> bool \<Rightarrow> TorrentFile list \<Rightarrow> nat list \<Rightarrow> string option" where
  "OK_click fileListLoading uploading fileList selectedFiles =
     (if OK_disabled fileListLoading uploading selectedFiles then None
      else Some (handleUpload_url fileList selectedFiles))"

declare string_of_nat.simps [simp del]

section \<open>Invariants of the schedulers\<close>

text \<open>At most one thing is pending: an invocation in flight or an armed timer.\<close>

definition one_at_a_time :: "'a sched_scheme \<Rightarrow> bool" where
  "one_at_a_time s = (in_flight s + length (timers s) \<le> 1)"

text \<open>Every armed timer is the one \<^verbatim>\<open>timeoutId\<close> names.\<close>

definition tracked :: "'a sched_scheme \<Rightarrow> bool" where
  "tracked s = (\<forall>(t, d) \<in> set (timers s). timeoutId s = Some t)"

text \<open>Nothing is pending: no event can start an invocation any more.\<close>

definition stopped :: "'a sched_scheme \<Rightarrow> bool" where
  "stopped s = (in_flight s = 0 \<and> timers s = [])"

text \<open>\<^verbatim>\<open>loopUntilSuccess\<close> has one shot: the operation has run, or its timer is armed.\<close>

definition one_shot :: "sched \<Rightarrow> bool" where
  "one_shot s = (invocations s + length (timers s) \<le> 1)"

section \<open>Sample inputs\<close>

text \<open>The state \<^verbatim>\<open>Root\<close> starts in.\<close>

definition Root_initial :: root_state where
  "Root_initial =
     \<lparr>closeableError = None, otherError = None, torrents = Some JNull,
      torrentsLoading = False\<rparr>"





definition disk_full_response :: "json response" where
  "disk_full_response =
     \<lparr>resp_status = 500, resp_statusText = ''Internal Server Error'', resp_ok = False,
      resp_text = Inr ''{\"human_readable\":\"disk full\"}'',
      resp_parse = Inr \<lparr>pb_value = JObj [(''human_readable'', JStr ''disk full'')],
        pb_pretty = ''{'' @ [CHR 0x0A] @ ''  \"human_readable\": \"disk full\"'' @ [CHR 0x0A]
          @ ''}''\<rparr>,
      resp_json = Inr (JObj [(''human_readable'', JStr ''disk full'')])\<rparr>"

definition seven_response :: "json response" where
  "seven_response =
     \<lparr>resp_status = 500, resp_statusText = ''Internal Server Error'', resp_ok = False,
      resp_text = Inr ''7'',
      resp_parse = Inr \<lparr>pb_value = JNum 7, pb_pretty = ''7''\<rparr>,
      resp_json = Inr (JNum 7)\<rparr>"

definition null_response :: "json response" where
  "null_response =
     \<lparr>resp_status = 500, resp_statusText = ''Internal Server Error'', resp_ok = False,
      resp_text = Inr ''null'',
      resp_parse = Inr \<lparr>pb_value = JNull, pb_pretty = ''null''\<rparr>,
      resp_json = Inr JNull\<rparr>"

definition oops_response :: "json response" where
  "oops_response =
     \<lparr>resp_status = 500, resp_statusText = ''Internal Server Error'', resp_ok = False,
      resp_text = Inr ''oops'', resp_parse = Inl SyntaxError, resp_json = Inl SyntaxError\<rparr>"

definition empty_response :: "json response" where
  "empty_response =
     \<lparr>resp_status = 500, resp_statusText = ''Internal Server Error'', resp_ok = False,
      resp_text = Inr [], resp_parse = Inl SyntaxError, resp_json = Inl SyntaxError\<rparr>"

definition html_response :: "json response" where
  "html_response =
     \<lparr>resp_status = 200, resp_statusText = ''OK'', resp_ok = True,
      resp_text = Inr ''<html></html>'', resp_parse = Inl SyntaxError,
      resp_json = Inl SyntaxError\<rparr>"

definition broken_response :: "json response" where
  "broken_response =
     \<lparr>resp_status = 502, resp_statusText = ''Bad Gateway'', resp_ok = False,
      resp_text = Inl DOMException, resp_parse = Inl SyntaxError,
      resp_json = Inl DOMException\<rparr>"

text \<open>Manifests of three and of five files.\<close>

definition three_files :: "TorrentFile list" where
  "three_files =
     [\<lparr>f_name = ''a'', f_length = 1, f_included = True\<rparr>,
      \<lparr>f_name = ''b'', f_length = 2, f_included = True\<rparr>,
      \<lparr>f_name = ''c'', f_length = 3, f_included = True\<rparr>]"

definition five_files :: "TorrentFile list" where
  "five_files = three_files @
     [\<lparr>f_name = ''d'', f_length = 4, f_included = True\<rparr>,
      \<lparr>f_name = ''e'', f_length = 5, f_included = True\<rparr>]"

section \<open>The schedulers: one invocation at a time\<close>

lemma expire_length:
  "armed t b \<Longrightarrow> length (timers (expire t b)) < length (timers b)"
  unfolding armed_def expire_def
  by (auto intro!: length_filter_less)

lemma clearCustomInterval_length:
  "length (timers (clearCustomInterval s)) \<le> length (timers s)"
  by (simp add: clearCustomInterval_def clearTimeout_def split: option.splits)

lemma clearCustomInterval_counters:
  "in_flight (clearCustomInterval s) = in_flight s"
  "invocations (clearCustomInterval s) = invocations s"
  by (simp_all add: clearCustomInterval_def clearTimeout_def split: option.splits)

lemma csi_step_one_at_a_time:
  assumes inv: "one_at_a_time s"
  shows "one_at_a_time (csi_step s e)"
proof (cases e)
  case (TimerFires t)
  show ?thesis
  proof (cases "armed t s")
    case True
    from expire_length[OF True] inv
    have "in_flight s = 0" and "length (timers (expire t s)) = 0"
      unfolding one_at_a_time_def by linarith+
    then show ?thesis
      using True TimerFires
      by (simp add: one_at_a_time_def executeCallback_begin_def invoke_def expire_def)
  next
    case False
    then show ?thesis using inv TimerFires by simp
  qed
next
  case (Settles r)
  show ?thesis
  proof (cases "in_flight s = 0")
    case True
    then show ?thesis using inv Settles by simp
  next
    case False
    with inv have "in_flight s = 1" and "length (timers s) = 0"
      unfolding one_at_a_time_def by linarith+
    then show ?thesis
      using Settles
      by (cases r)
         (simp_all add: one_at_a_time_def executeCallback_resume_def settled_def
            scheduleNext_def setTimeout_def Let_def)
  qed
next
  case Cancel
  with inv clearCustomInterval_length[of s] show ?thesis
    by (simp add: one_at_a_time_def clearCustomInterval_counters)
qed

lemma csi_foldl_one_at_a_time:
  "one_at_a_time s \<Longrightarrow> one_at_a_time (foldl csi_step s evs)"
  by (induction evs arbitrary: s) (simp_all add: csi_step_one_at_a_time)

lemma customSetInterval_one_at_a_time: "one_at_a_time (customSetInterval interval)"
  by (simp add: one_at_a_time_def customSetInterval_def scheduleNext_def setTimeout_def)

lemma csi_run_one_at_a_time: "one_at_a_time (csi_run interval evs)"
  unfolding csi_run_def
  by (rule csi_foldl_one_at_a_time[OF customSetInterval_one_at_a_time])

text \<open>
  C1. However the event loop interleaves timer expiries, settlements of the unit of work
  (with any result, after any time) and calls of the cancellation handle, a
  \<^verbatim>\<open>customSetInterval\<close> instance never has more than one invocation in flight, and while
  one is in flight no timer for the next one is armed: the next invocation is scheduled
  only once the previous one has resolved.
\<close>

theorem customSetInterval_no_overlap:
  "in_flight (csi_run interval evs) + length (timers (csi_run interval evs)) \<le> 1"
  using csi_run_one_at_a_time[of interval evs]
  by (simp add: one_at_a_time_def)

section \<open>loopUntilSuccess does not retry\<close>

lemma lus_resume_no_retry: "lus_executeCallback_resume interval r s = settled s"
  by (cases r) (simp_all add: lus_executeCallback_resume_def onFulfilled_def onRejected_def)

lemma lus_step_one_shot:
  assumes inv: "one_shot s"
  shows "one_shot (lus_step interval s e)"
proof (cases e)
  case (TimerFires t)
  show ?thesis
  proof (cases "armed t s")
    case True
    from expire_length[OF True] inv
    have "invocations s = 0" and "length (timers (expire t s)) = 0"
      unfolding one_shot_def by linarith+
    then show ?thesis
      using True TimerFires
      by (simp add: one_shot_def lus_executeCallback_begin_def invoke_def expire_def)
  next
    case False
    then show ?thesis using inv TimerFires by simp
  qed
next
  case (Settles r)
  with inv show ?thesis
    by (simp add: lus_resume_no_retry one_shot_def settled_def)
next
  case Cancel
  with inv clearCustomInterval_length[of s] show ?thesis
    by (simp add: one_shot_def clearCustomInterval_counters)
qed

lemma lus_foldl_one_shot:
  "one_shot s \<Longrightarrow> one_shot (foldl (lus_step interval) s evs)"
  by (induction evs arbitrary: s) (simp_all add: lus_step_one_shot)

lemma loopUntilSuccess_one_shot: "one_shot (loopUntilSuccess interval)"
  by (simp add: one_shot_def loopUntilSuccess_def lus_scheduleNext_def setTimeout_def)

lemma loopUntilSuccess_first_delay: "timers (loopUntilSuccess interval) = [(1, 0)]"
  by (simp add: loopUntilSuccess_def lus_scheduleNext_def setTimeout_def)

lemma lus_run_failure:
  "lus_run interval [TimerFires 1, Settles Failure]
     = \<lparr>timers = [], next_id = 2, timeoutId = Some 1, in_flight = 0, invocations = 1\<rparr>"
  by (simp add: lus_run_def loopUntilSuccess_def lus_scheduleNext_def setTimeout_def armed_def
      expire_def lus_executeCallback_begin_def invoke_def lus_resume_no_retry settled_def)

text \<open>
  C2. The claim asks for a retry after every failure, three invocations for an operation
  that fails twice and then succeeds. The code never retries: both handlers given to
  \<^verbatim>\<open>then\<close> return \<^verbatim>\<open>undefined\<close>, so \<^verbatim>\<open>retry\<close> is never true. Whatever the event loop
  does, the operation is invoked at most once; after the first failure no timer is armed;
  and in the run of the claim (fail, fail, succeed) the operation is invoked once, not
  three times.
\<close>

theorem loopUntilSuccess_never_retries:
  "invocations (lus_run interval evs) \<le> 1
   \<and> timers (lus_run interval [TimerFires 1, Settles Failure]) = []
   \<and> invocations (lus_run interval
        [TimerFires 1, Settles Failure, TimerFires 2, Settles Failure, TimerFires 3,
         Settles Success]) = 1"
proof -
  have "one_shot (lus_run interval evs)"
    unfolding lus_run_def by (rule lus_foldl_one_shot[OF loopUntilSuccess_one_shot])
  then have "invocations (lus_run interval evs) \<le> 1"
    by (simp add: one_shot_def)
  moreover have "timers (lus_run interval [TimerFires 1, Settles Failure]) = []"
    unfolding lus_run_failure by simp
  moreover have "lus_run interval [TimerFires 1, Settles Failure, TimerFires 2,
      Settles Failure, TimerFires 3, Settles Success]
      = \<lparr>timers = [], next_id = 2, timeoutId = Some 1, in_flight = 0, invocations = 1\<rparr>"
    by (simp add: lus_run_def loopUntilSuccess_def lus_scheduleNext_def setTimeout_def armed_def
        expire_def lus_executeCallback_begin_def invoke_def lus_resume_no_retry settled_def)
  ultimately show ?thesis by simp
qed

section \<open>Cancellation\<close>

lemma clearCustomInterval_tracked:
  assumes "tracked s"
  shows "timers (clearCustomInterval s) = []"
proof (cases "timeoutId s")
  case None
  with assms have "timers s = []" by (cases "timers s") (auto simp: tracked_def)
  with None show ?thesis by (simp add: clearCustomInterval_def clearTimeout_def)
next
  case (Some i)
  with assms show ?thesis
    by (auto simp: tracked_def clearCustomInterval_def clearTimeout_def filter_empty_conv)
qed

lemma csi_step_tracked:
  assumes "tracked s" "one_at_a_time s"
  shows "tracked (csi_step s e)"
proof (cases e)
  case (TimerFires t)
  then show ?thesis using assms(1)
    by (auto simp: tracked_def executeCallback_begin_def invoke_def expire_def)
next
  case (Settles r)
  show ?thesis
  proof (cases "in_flight s = 0")
    case True
    then show ?thesis using assms(1) Settles by simp
  next
    case False
    with assms(2) have "length (timers s) = 0" unfolding one_at_a_time_def by linarith
    then show ?thesis using Settles assms(1)
      by (cases r)
         (auto simp: tracked_def executeCallback_resume_def settled_def
            scheduleNext_def setTimeout_def Let_def)
  qed
next
  case Cancel
  then show ?thesis using assms(1)
    by (auto simp: tracked_def clearCustomInterval_def clearTimeout_def split: option.splits)
qed

lemma csi_foldl_tracked:
  "tracked s \<Longrightarrow> one_at_a_time s \<Longrightarrow> tracked (foldl csi_step s evs)"
  by (induction evs arbitrary: s) (simp_all add: csi_step_tracked csi_step_one_at_a_time)

lemma csi_run_tracked: "tracked (csi_run interval evs)"
  unfolding csi_run_def
proof (rule csi_foldl_tracked[OF _ customSetInterval_one_at_a_time])
  show "tracked (customSetInterval interval)"
    by (simp add: tracked_def customSetInterval_def scheduleNext_def setTimeout_def)
qed

lemma csi_step_stopped: "stopped s \<Longrightarrow> csi_step s e = s"
  by (cases e)
     (auto simp: stopped_def armed_def clearCustomInterval_def clearTimeout_def
        split: option.splits)

lemma csi_foldl_stopped: "stopped s \<Longrightarrow> foldl csi_step s evs = s"
  by (induction evs) (simp_all add: csi_step_stopped)

text \<open>The part of the cancellation claim that holds for \<^verbatim>\<open>customSetInterval\<close>: a call
  of the handle while no invocation is in flight disarms the timer, and no event after it
  changes the scheduler: no invocation is ever started again.\<close>

lemma customSetInterval_cancel_idle:
  assumes "in_flight (csi_run interval evs) = 0"
  shows "foldl csi_step (csi_run interval evs) (Cancel # evs')
           = clearCustomInterval (csi_run interval evs)"
    and "invocations (foldl csi_step (csi_run interval evs) (Cancel # evs'))
           = invocations (csi_run interval evs)"
proof -
  have "stopped (clearCustomInterval (csi_run interval evs))"
    using assms clearCustomInterval_tracked[OF csi_run_tracked, of interval evs]
    by (simp add: stopped_def clearCustomInterval_counters)
  then show "foldl csi_step (csi_run interval evs) (Cancel # evs')
           = clearCustomInterval (csi_run interval evs)"
    by (simp add: csi_foldl_stopped)
  then show "invocations (foldl csi_step (csi_run interval evs) (Cancel # evs'))
           = invocations (csi_run interval evs)"
    by (simp add: clearCustomInterval_counters)
qed

lemma lus_step_tracked: "tracked s \<Longrightarrow> tracked (lus_step interval s e)"
  by (cases e)
     (auto simp: tracked_def lus_executeCallback_begin_def invoke_def expire_def
        lus_resume_no_retry settled_def clearCustomInterval_def clearTimeout_def
        split: option.splits)

lemma lus_foldl_tracked: "tracked s \<Longrightarrow> tracked (foldl (lus_step interval) s evs)"
  by (induction evs arbitrary: s) (simp_all add: lus_step_tracked)

lemma lus_run_tracked: "tracked (lus_run interval evs)"
  unfolding lus_run_def
proof (rule lus_foldl_tracked)
  show "tracked (loopUntilSuccess interval)"
    by (simp add: tracked_def loopUntilSuccess_def lus_scheduleNext_def setTimeout_def)
qed

lemma lus_step_disarmed:
  assumes "timers s = []"
  shows "timers (lus_step interval s e) = [] \<and>
         invocations (lus_step interval s e) = invocations s"
  using assms
  by (cases e)
     (auto simp: armed_def lus_resume_no_retry settled_def clearCustomInterval_def
        clearTimeout_def split: option.splits)

lemma lus_foldl_disarmed:
  "timers s = [] \<Longrightarrow> invocations (foldl (lus_step interval) s evs) = invocations s"
proof (induction evs arbitrary: s)
  case Nil
  then show ?case by simp
next
  case (Cons e evs)
  from lus_step_disarmed[OF Cons.prems, of interval e] Cons.IH[of "lus_step interval s e"]
  show ?case by simp
qed

text \<open>For \<^verbatim>\<open>loopUntilSuccess\<close> the cancellation claim holds, also with an invocation in
  flight: as the code is, nothing is ever rescheduled after an invocation.\<close>

lemma loopUntilSuccess_cancel:
  "invocations (foldl (lus_step interval) (lus_run interval evs) (Cancel # evs'))
     = invocations (lus_run interval evs)"
  using lus_foldl_disarmed[OF clearCustomInterval_tracked[OF lus_run_tracked],
      of interval interval evs evs']
  by (simp add: clearCustomInterval_counters)

text \<open>
  C3. The claim: after the cancellation handle is called no new invocation is started,
  also when one was in flight at that time. The code of \<^verbatim>\<open>customSetInterval\<close> only
  clears the timer \<^verbatim>\<open>timeoutId\<close> names, which has fired already when an invocation is in
  flight. In the run below the timer fires, the handle is called while the first
  invocation is in flight, the invocation resolves with 500: the scheduler arms a new
  timer, and when that fires a second invocation starts.
\<close>

theorem customSetInterval_cancel_in_flight:
  "in_flight (csi_run 0 [TimerFires 1, Cancel]) = 1
   \<and> invocations (csi_run 0 [TimerFires 1, Cancel]) = 1
   \<and> timers (csi_run 0 [TimerFires 1, Cancel, Settles (Resolves (Some 500))]) = [(2, 500)]
   \<and> invocations
        (csi_run 0 [TimerFires 1, Cancel, Settles (Resolves (Some 500)), TimerFires 2]) = 2"
  by (simp add: csi_run_def customSetInterval_def scheduleNext_def setTimeout_def armed_def
      expire_def executeCallback_begin_def invoke_def clearCustomInterval_def clearTimeout_def
      executeCallback_resume_def settled_def)

section \<open>The first delay\<close>

text \<open>
  C9, as stated: every adaptive scheduler schedules its first invocation with delay 0,
  whatever interval it is constructed with. It fails for the registry poller, which
  constructs its scheduler with 500: the one armed timer has delay 500.
\<close>

theorem customSetInterval_first_delay_counterexample:
  "map snd (timers Root_scheduler) = [500] \<and> map snd (timers Root_scheduler) \<noteq> [0]"
  by (simp add: Root_scheduler_def Root_interval_def customSetInterval_def scheduleNext_def
      setTimeout_def)

text \<open>
  C9, amended: on construction nothing is invoked and one timer is armed, with the
  interval argument as its delay. The stats poller of a task passes 0, so its first fetch
  is immediate; the registry poller passes 500.
\<close>

theorem customSetInterval_first_delay:
  "map snd (timers (customSetInterval interval)) = [interval]
   \<and> invocations (customSetInterval interval) = 0
   \<and> map snd (timers Torrent_scheduler) = [0]
   \<and> map snd (timers Root_scheduler) = [500]"
  by (simp add: Torrent_scheduler_def Root_scheduler_def Root_interval_def
      customSetInterval_def scheduleNext_def setTimeout_def)

section \<open>makeRequest: what a rejection carries\<close>

lemma makeRequest_quiet: "snd (makeRequest m p False fetched st) = st"
  by (simp add: makeRequest_def maybeShowError_def Let_def
      split: fetch_outcome.splits sum.splits)


text \<open>
  C6, as stated: on every HTTP error the text of the error record is populated. It fails
  for an error response with an empty body: \<^verbatim>\<open>JSON.parse\<close> rejects the empty text, the
  raw text is taken, and the text of the record is the empty string.
\<close>

theorem makeRequest_empty_text_counterexample:
  "fst (makeRequest ''GET'' ''/torrents/0/stats'' False (FetchReturns empty_response)
      Root_initial)
   = Inl (ErrorRecord \<lparr>e_id = None, e_method = Some ''GET'',
       e_path = Some ''/torrents/0/stats'', e_status = Some 500,
       e_statusText = Some ''Internal Server Error'', e_text = JStr []\<rparr>)"
  by (simp add: makeRequest_def error_text_def empty_response_def Let_def)

text \<open>
  C6, amended. When \<^verbatim>\<open>fetch\<close> throws, the request is rejected with the record of the
  method and the path, the text \<^verbatim>\<open>network error\<close> and no status. When a response with a
  non-success status arrives and its body can be read as text, the request is rejected
  with an error record that holds the status and the status text, and whose text is: the
  \<^verbatim>\<open>human_readable\<close> field of the parsed body when the body parses to an object that has
  one; the pretty-printed JSON when the body parses to a value other than \<^verbatim>\<open>null\<close>
  without that field; the raw body when it does not parse, or parses to \<^verbatim>\<open>null\<close>
  (reading the field throws). Nothing says the text is non-empty.
\<close>

theorem makeRequest_error_record:
  "fst (makeRequest m p se FetchThrows st) =
     Inl (ErrorRecord \<lparr>e_id = None, e_method = Some m, e_path = Some p,
       e_status = None, e_statusText = None, e_text = JStr ''network error''\<rparr>)
   \<and> (\<not> resp_ok r \<and> resp_text r = Inr body \<longrightarrow>
        (\<exists>e. fst (makeRequest m p se (FetchReturns r) st) = Inl (ErrorRecord e)
           \<and> e_status e = Some (resp_status r) \<and> e_statusText e = Some (resp_statusText r)
           \<and> (resp_parse r = Inr b \<and> get_property (pb_value b) ''human_readable'' = Inr (Some v)
                \<longrightarrow> e_text e = v)
           \<and> (resp_parse r = Inr b \<and> get_property (pb_value b) ''human_readable'' = Inr None
                \<longrightarrow> e_text e = JStr (pb_pretty b))
           \<and> (resp_parse r = Inr b \<and> get_property (pb_value b) ''human_readable'' = Inl x
                \<longrightarrow> e_text e = JStr body)
           \<and> (resp_parse r = Inl x \<longrightarrow> e_text e = JStr body)))"
  by (simp add: makeRequest_def error_text_def Let_def)

theorem makeRequest_error_record_witness:
  "(\<exists>e. fst (makeRequest ''GET'' ''/torrents/0'' False (FetchReturns disk_full_response)
            Root_initial) = Inl (ErrorRecord e)
        \<and> e_status e = Some 500 \<and> e_text e = JStr ''disk full'')
   \<and> (\<exists>e. fst (makeRequest ''GET'' ''/torrents/0'' False (FetchReturns seven_response)
            Root_initial) = Inl (ErrorRecord e)
        \<and> e_status e = Some 500 \<and> e_text e = JStr ''7'')
   \<and> (\<exists>e. fst (makeRequest ''GET'' ''/torrents/0'' False (FetchReturns null_response)
            Root_initial) = Inl (ErrorRecord e)
        \<and> e_status e = Some 500 \<and> e_text e = JStr ''null'')
   \<and> (\<exists>e. fst (makeRequest ''GET'' ''/torrents/0'' False (FetchReturns oops_response)
            Root_initial) = Inl (ErrorRecord e)
        \<and> e_status e = Some 500 \<and> e_text e = JStr ''oops'')"
proof -
  have 1: "\<not> resp_ok disk_full_response \<and>
      resp_text disk_full_response = Inr ''{\"human_readable\":\"disk full\"}''"
    and 2: "resp_parse disk_full_response = Inr (projr (resp_parse disk_full_response))
      \<and> get_property (pb_value (projr (resp_parse disk_full_response))) ''human_readable''
          = Inr (Some (JStr ''disk full''))"
    by (simp_all add: disk_full_response_def)
  have 3: "\<not> resp_ok seven_response \<and> resp_text seven_response = Inr ''7''"
    and 4: "resp_parse seven_response = Inr (projr (resp_parse seven_response))
      \<and> get_property (pb_value (projr (resp_parse seven_response))) ''human_readable''
          = Inr None"
    and pretty7: "pb_pretty (projr (resp_parse seven_response)) = ''7''"
    by (simp_all add: seven_response_def)
  have 5: "\<not> resp_ok null_response \<and> resp_text null_response = Inr ''null''"
    and 6: "resp_parse null_response = Inr (projr (resp_parse null_response))
      \<and> get_property (pb_value (projr (resp_parse null_response))) ''human_readable''
          = Inl TypeError"
    by (simp_all add: null_response_def)
  have 7: "\<not> resp_ok oops_response \<and> resp_text oops_response = Inr ''oops''"
    and 8: "resp_parse oops_response = Inl SyntaxError"
    by (simp_all add: oops_response_def)
  note t = makeRequest_error_record[THEN conjunct2, rule_format]
  from t[OF 1] 2 have a: "\<exists>e. fst (makeRequest ''GET'' ''/torrents/0'' False
      (FetchReturns disk_full_response) Root_initial) = Inl (ErrorRecord e)
        \<and> e_status e = Some 500 \<and> e_text e = JStr ''disk full''"
    by (fastforce simp: disk_full_response_def)
  from t[OF 3] 4 pretty7 have b: "\<exists>e. fst (makeRequest ''GET'' ''/torrents/0'' False
      (FetchReturns seven_response) Root_initial) = Inl (ErrorRecord e)
        \<and> e_status e = Some 500 \<and> e_text e = JStr ''7''"
    by (fastforce simp: seven_response_def)
  from t[OF 5] 6 have c: "\<exists>e. fst (makeRequest ''GET'' ''/torrents/0'' False
      (FetchReturns null_response) Root_initial) = Inl (ErrorRecord e)
        \<and> e_status e = Some 500 \<and> e_text e = JStr ''null''"
    by (fastforce simp: null_response_def)
  from t[OF 7] 8 have d: "\<exists>e. fst (makeRequest ''GET'' ''/torrents/0'' False
      (FetchReturns oops_response) Root_initial) = Inl (ErrorRecord e)
        \<and> e_status e = Some 500 \<and> e_text e = JStr ''oops''"
    by (fastforce simp: oops_response_def)
  from a b c d show ?thesis by blast
qed

text \<open>
  C8, as stated: every failure of \<^verbatim>\<open>makeRequest\<close>, a success-status response whose body
  is not valid JSON included, is rejected with an error record. It fails for a 200
  response that carries HTML: \<^verbatim>\<open>response.json()\<close> throws and the exception leaves the
  function as it is.
\<close>

theorem makeRequest_raw_exception_counterexample:
  "fst (makeRequest ''GET'' ''/torrents'' False (FetchReturns html_response) Root_initial)
   = Inl (Thrown SyntaxError)"
  by (simp add: makeRequest_def html_response_def)

text \<open>
  C8, amended. A request is rejected with an error record exactly when \<^verbatim>\<open>fetch\<close> throws
  or a response with a non-success status arrives whose body can be read as text. The
  record always holds the method and the path and no id. After a transport failure it
  holds no status, no status text and the text \<^verbatim>\<open>network error\<close>; when a response
  arrived it holds the status and the status text of the response, and the text chosen
  from the body of the response (which is empty for an empty body). A request is rejected
  with an exception that was not turned into a record exactly when reading the body
  throws: \<^verbatim>\<open>response.json()\<close> on a success status (a body that is not valid JSON),
  \<^verbatim>\<open>response.text()\<close> on a non-success status.
\<close>

theorem makeRequest_rejections:
  "((\<exists>e. fst (makeRequest m p se fetched st) = Inl (ErrorRecord e)) \<longleftrightarrow>
      fetched = FetchThrows
      \<or> (\<exists>r body. fetched = FetchReturns r \<and> \<not> resp_ok r \<and> resp_text r = Inr body))
   \<and> (fst (makeRequest m p se fetched st) = Inl (ErrorRecord e) \<longrightarrow>
        e_id e = None \<and> e_method e = Some m \<and> e_path e = Some p
        \<and> (fetched = FetchThrows \<longrightarrow>
              e_status e = None \<and> e_statusText e = None \<and> e_text e = JStr ''network error'')
        \<and> (fetched = FetchReturns r \<longrightarrow>
              e_status e = Some (resp_status r) \<and> e_statusText e = Some (resp_statusText r))
        \<and> (fetched = FetchReturns r \<and> resp_text r = Inr body \<longrightarrow>
              e_text e = error_text (resp_parse r) body))
   \<and> (fst (makeRequest m p se fetched st) = Inl (Thrown x) \<longleftrightarrow>
        (\<exists>r. fetched = FetchReturns r \<and>
           (if resp_ok r then resp_json r = Inl x else resp_text r = Inl x)))"
  by (cases fetched) (auto simp add: makeRequest_def Let_def split: sum.splits)

theorem makeRequest_rejections_witness:
  "fst (makeRequest ''POST'' ''/torrents?overwrite=true'' False (FetchReturns broken_response)
      Root_initial) = Inl (Thrown DOMException)
   \<and> fst (makeRequest ''POST'' ''/torrents?overwrite=true'' False
           (FetchReturns oops_response) Root_initial)
       = Inl (ErrorRecord \<lparr>e_id = None, e_method = Some ''POST'',
           e_path = Some ''/torrents?overwrite=true'', e_status = Some 500,
           e_statusText = Some ''Internal Server Error'', e_text = JStr ''oops''\<rparr>)
   \<and> fst (makeRequest ''POST'' ''/torrents?overwrite=true'' False
           (FetchThrows :: json fetch_outcome) Root_initial)
       = Inl (ErrorRecord \<lparr>e_id = None, e_method = Some ''POST'',
           e_path = Some ''/torrents?overwrite=true'', e_status = None,
           e_statusText = None, e_text = JStr ''network error''\<rparr>)"
proof -
  note t = makeRequest_rejections[of "''POST''" "''/torrents?overwrite=true''" False _
      Root_initial]
  have "\<exists>r. FetchReturns broken_response = FetchReturns r \<and>
      (if resp_ok r then resp_json r = Inl DOMException else resp_text r = Inl DOMException)"
    by (simp add: broken_response_def)
  with t[of "FetchReturns broken_response" _ _ _ DOMException, THEN conjunct2, THEN conjunct2]
  have a: "fst (makeRequest ''POST'' ''/torrents?overwrite=true'' False
      (FetchReturns broken_response) Root_initial) = Inl (Thrown DOMException)"
    by (rule iffD2)
  have "\<exists>r body. FetchReturns oops_response = FetchReturns r \<and> \<not> resp_ok r \<and>
      resp_text r = Inr body"
    by (simp add: oops_response_def)
  with t[of "FetchReturns oops_response", THEN conjunct1]
  obtain e where e: "fst (makeRequest ''POST'' ''/torrents?overwrite=true'' False
      (FetchReturns oops_response) Root_initial) = Inl (ErrorRecord e)"
    by blast
  from t[of "FetchReturns oops_response" e oops_response "''oops''", THEN conjunct2,
      THEN conjunct1, THEN mp, OF e]
  have "e = \<lparr>e_id = None, e_method = Some ''POST'',
           e_path = Some ''/torrents?overwrite=true'', e_status = Some 500,
           e_statusText = Some ''Internal Server Error'', e_text = JStr ''oops''\<rparr>"
    by (cases e) (simp add: oops_response_def error_text_def)
  with e have b: "fst (makeRequest ''POST'' ''/torrents?overwrite=true'' False
           (FetchReturns oops_response) Root_initial)
       = Inl (ErrorRecord \<lparr>e_id = None, e_method = Some ''POST'',
           e_path = Some ''/torrents?overwrite=true'', e_status = Some 500,
           e_statusText = Some ''Internal Server Error'', e_text = JStr ''oops''\<rparr>)"
    by simp
  have "(\<exists>e. fst (makeRequest ''POST'' ''/torrents?overwrite=true'' False
      (FetchThrows :: json fetch_outcome) Root_initial) = Inl (ErrorRecord e))"
    using t[of "FetchThrows :: json fetch_outcome", THEN conjunct1] by blast
  then obtain e' where e': "fst (makeRequest ''POST'' ''/torrents?overwrite=true'' False
      (FetchThrows :: json fetch_outcome) Root_initial) = Inl (ErrorRecord e')"
    by blast
  from t[of "FetchThrows :: json fetch_outcome" e', THEN conjunct2, THEN conjunct1, THEN mp,
      OF e']
  have "e' = \<lparr>e_id = None, e_method = Some ''POST'',
           e_path = Some ''/torrents?overwrite=true'', e_status = None,
           e_statusText = None, e_text = JStr ''network error''\<rparr>"
    by (cases e') simp
  with e' have c: "fst (makeRequest ''POST'' ''/torrents?overwrite=true'' False
      (FetchThrows :: json fetch_outcome) Root_initial)
       = Inl (ErrorRecord \<lparr>e_id = None, e_method = Some ''POST'',
           e_path = Some ''/torrents?overwrite=true'', e_status = None,
           e_statusText = None, e_text = JStr ''network error''\<rparr>)"
    by simp
  from a b c show ?thesis by blast
qed

section \<open>The pollers\<close>

text \<open>
  C4. A stats poll whose fetch succeeds stores the fetched stats and returns 5000 when
  \<^verbatim>\<open>have_bytes\<close> equals \<^verbatim>\<open>total_bytes\<close>, 500 otherwise; a poll whose fetch fails returns
  10000 whatever the stored stats are, and leaves them as they were.
\<close>

theorem update_next_interval:
  "update (Inr stats) statsResponse =
     (if have_bytes (snapshot stats) = total_bytes (snapshot stats) then 5000 else 500, stats)
   \<and> update (Inl e) statsResponse = (10000, statsResponse)"
  by (simp add: update_def torrentIsDone_def)

text \<open>The same through \<^verbatim>\<open>getTorrentStats\<close>: the state of \<^verbatim>\<open>Root\<close> is not touched, since
  the pollers pass \<^verbatim>\<open>showError = false\<close>.\<close>

lemma Torrent_update_cases:
  "Torrent_update torrent fetched (root, statsResponse) =
     (case fst (getTorrentStats (t_id torrent) fetched root) of
        Inr stats \<Rightarrow> (if torrentIsDone stats then 5000 else 500, root, stats)
      | Inl e \<Rightarrow> (10000, root, statsResponse))"
proof -
  obtain r root' where g: "getTorrentStats (t_id torrent) fetched root = (r, root')"
    by (cases "getTorrentStats (t_id torrent) fetched root")
  with makeRequest_quiet have "root' = root"
    by (metis getTorrentStats_def snd_conv)
  with g show ?thesis
    by (cases r) (simp_all add: Torrent_update_def update_def)
qed





section \<open>The file selection\<close>

lemma allPresent_foldl:
  "foldl (\<lambda>allPresent (id', _). allPresent \<and> id' \<in> S) b (enumerate k xs)
     = (b \<and> (\<forall>i<length xs. k + i \<in> S))"
proof (induction xs arbitrary: b k)
  case Nil
  then show ?case by simp
next
  case (Cons x xs)
  have "(\<forall>i<Suc (length xs). k + i \<in> S) = (k \<in> S \<and> (\<forall>i<length xs. Suc k + i \<in> S))"
    by (auto simp: less_Suc_eq_0_disj)
  with Cons show ?case by auto
qed

lemma getSelectedFilesQueryParam_eq:
  "getSelectedFilesQueryParam fileList selectedFiles =
     (if \<forall>i<length fileList. i \<in> set selectedFiles then []
      else ''&only_files='' @ join '','' (map string_of_nat selectedFiles))"
  using allPresent_foldl[of "set selectedFiles" True 0 fileList]
  by (simp add: getSelectedFilesQueryParam_def)

lemma reset_selection_upt: "reset_selection (Some fileList) = [0..<length fileList]"
  by (simp add: reset_selection_def map_fst_enumerate)

lemma string_of_nat_digit: "n < 10 \<Longrightarrow> string_of_nat n = [''0123456789'' ! n]"
  by (simp add: string_of_nat.simps)

text \<open>
  C7, as stated: the value of \<^verbatim>\<open>only_files\<close> lists the selected indices in ascending
  order, in whatever order the user toggled the files. It fails for a manifest of three
  files when the user unticks file 0, unticks file 1 and ticks file 0 again: the selection
  is then held as 2, 0 and the URL submitted ends in \<^verbatim>\<open>only_files=2,0\<close>.
\<close>

theorem handleUpload_toggle_order_counterexample:
  "foldl handleToggleFile (reset_selection (Some three_files)) [0, 1, 0] = [2, 0]
   \<and> OK_click False False three_files
       (foldl handleToggleFile (reset_selection (Some three_files)) [0, 1, 0])
     = Some ''/torrents?overwrite=true&only_files=2,0''"
  by code_simp

text \<open>
  C7, amended. When every index of the manifest is in the selection, the URL has no
  \<^verbatim>\<open>only_files\<close> parameter. Otherwise it has one, whose value is the selected indices,
  zero-based and comma-joined, in the order the selection holds them: the selection starts
  in ascending order, unticking a file keeps it ascending, and ticking a file puts its
  index at the end of the list. With an empty selection the OK button is disabled and
  nothing is submitted.
\<close>

theorem handleUpload_only_files:
  "((\<forall>i<length fileList. i \<in> set selectedFiles) \<longrightarrow>
      handleUpload_url fileList selectedFiles = ''/torrents?overwrite=true'')
   \<and> (\<not> (\<forall>i<length fileList. i \<in> set selectedFiles) \<longrightarrow>
      handleUpload_url fileList selectedFiles =
        ''/torrents?overwrite=true&only_files='' @ join '','' (map string_of_nat selectedFiles))
   \<and> sorted (reset_selection fl)
   \<and> (sorted selectedFiles \<and> fileIndex \<in> set selectedFiles \<longrightarrow>
        sorted (handleToggleFile selectedFiles fileIndex))
   \<and> (fileIndex \<notin> set selectedFiles \<longrightarrow>
        handleToggleFile selectedFiles fileIndex = selectedFiles @ [fileIndex])
   \<and> OK_click fileListLoading uploading fileList [] = None"
  by (simp add: getSelectedFilesQueryParam_eq handleUpload_url_def handleToggleFile_def
      OK_click_def OK_disabled_def reset_selection_def map_fst_enumerate
      sorted_filter[where f="\<lambda>x. x", simplified])

theorem handleUpload_only_files_witness:
  "handleUpload_url five_files [0, 1, 2, 3, 4] = ''/torrents?overwrite=true''
   \<and> handleUpload_url five_files [0, 2, 4] = ''/torrents?overwrite=true&only_files=0,2,4''
   \<and> sorted (handleToggleFile [0, 1, 2, 3, 4] 3)
   \<and> handleToggleFile [0, 2, 4] 1 = [0, 2, 4, 1]"
proof -
  have all: "\<forall>i<length five_files. i \<in> set [0, 1, 2, 3, 4]"
    by (auto simp: five_files_def three_files_def less_Suc_eq)
  have some: "\<not> (\<forall>i<length five_files. i \<in> set [0, 2, 4])"
    by (auto simp: five_files_def three_files_def intro!: exI[of _ 1])
  have s: "sorted [0, 1, 2, 3, 4 :: nat] \<and> 3 \<in> set [0, 1, 2, 3, 4 :: nat]"
    and n: "1 \<notin> set [0, 2, 4 :: nat]"
    by simp_all
  note t = handleUpload_only_files[of five_files]
  from t[THEN conjunct1, THEN mp, OF all]
    t[THEN conjunct2, THEN conjunct1, THEN mp, OF some]
    t[THEN conjunct2, THEN conjunct2, THEN conjunct2, THEN conjunct1, THEN mp, OF s]
    t[THEN conjunct2, THEN conjunct2, THEN conjunct2, THEN conjunct2, THEN conjunct1,
      THEN mp, OF n]
  show ?thesis by (simp add: string_of_nat_digit)
qed

text \<open>
  C10. The selection the dialog holds is a list of distinct indices below the number of
  files: the reset that runs when a manifest arrives sets it to exactly the indices
  0, ..., n - 1, and a toggle of the checkbox of a file of the manifest keeps it so: it
  removes the index when it is in the list and puts it at the end when it is not.
\<close>

theorem selectedFiles_invariant:
  "distinct (reset_selection (Some fileList))
   \<and> set (reset_selection (Some fileList)) = {0..<length fileList}
   \<and> reset_selection None = []
   \<and> (distinct selectedFiles \<and> set selectedFiles \<subseteq> {0..<n} \<and> fileIndex < n \<longrightarrow>
        distinct (handleToggleFile selectedFiles fileIndex)
        \<and> set (handleToggleFile selectedFiles fileIndex) \<subseteq> {0..<n})
   \<and> (fileIndex \<in> set selectedFiles \<longrightarrow>
        set (handleToggleFile selectedFiles fileIndex) = set selectedFiles - {fileIndex})
   \<and> (fileIndex \<notin> set selectedFiles \<longrightarrow>
        handleToggleFile selectedFiles fileIndex = selectedFiles @ [fileIndex])"
  by (auto simp add: reset_selection_def handleToggleFile_def)

theorem selectedFiles_invariant_witness:
  "distinct (handleToggleFile [0, 2] 1) \<and> set (handleToggleFile [0, 2] 1) \<subseteq> {0..<3}
   \<and> set (handleToggleFile [0, 2] 2) = set [0, 2] - {2}
   \<and> handleToggleFile [0, 2] 1 = [0, 2, 1]"
proof -
  have inv: "distinct [0, 2 :: nat] \<and> set [0, 2 :: nat] \<subseteq> {0..<3} \<and> (1 :: nat) < 3"
    and present: "2 \<in> set [0, 2 :: nat]"
    and absent: "1 \<notin> set [0, 2 :: nat]"
    by simp_all
  note t = selectedFiles_invariant[THEN conjunct2, THEN conjunct2, THEN conjunct2]
  from t[THEN conjunct1, rule_format, OF inv]
    t[THEN conjunct2, THEN conjunct1, rule_format, OF present]
    t[THEN conjunct2, THEN conjunct2, rule_format, OF absent]
  show ?thesis by simp
qed

end
